theory Spec2Isabelle
  imports Main "HOL-Library.Word"
begin

section \<open>Maze grid primitives of common.c\<close>

text \<open>
  The file common.c holds three functions over a two-dimensional array of rooms:
  \<^verbatim>\<open>is_in_range\<close>, \<^verbatim>\<open>get_neighbor\<close> and \<^verbatim>\<open>initialize_maze\<close>.
  They are embedded below as HOL functions. A C \<^verbatim>\<open>int\<close> is a 32-bit word read as
  two's complement by \<open>sint\<close>; the comparisons of the source are the signed ones.
  Addition and subtraction on words wrap around, where C leaves signed overflow
  undefined: the coordinates of a room of the grid lie in \<open>[0, num_rows)\<close> and
  \<open>[0, num_cols)\<close> and the loop counters stay below their bounds, so no statement
  about a grid reaches the wrap-around.
\<close>

subsection \<open>Data model\<close>

type_synonym c_int = "32 word"

text \<open>
  Modelled from the spec: the header common.h, which declares \<^verbatim>\<open>Direction\<close>, is not
  among the sources. The specification gives exactly four variants, North, South, West
  and East; the source compares a direction against \<^verbatim>\<open>NORTH\<close>, \<^verbatim>\<open>SOUTH\<close> and
  \<^verbatim>\<open>WEST\<close> and treats every other value as East.
\<close>

datatype Direction = NORTH | SOUTH | WEST | EAST

text \<open>
  Modelled from the spec: the header common.h, which declares \<^verbatim>\<open>struct maze_room\<close>, is
  not among the sources. The fields are the ones the specification lists and the
  initialiser of \<^verbatim>\<open>initialize_maze\<close> names: two integer coordinates, four integer wall
  slots and an integer visited flag.
\<close>

record maze_room =
  row :: c_int
  col :: c_int
  walls :: "c_int list"
  visited :: c_int

text \<open>
  A pointer to a room is an address counted in rooms, so that pointer arithmetic on
  \<^verbatim>\<open>struct maze_room *\<close> is integer arithmetic. The memory maps every address to the
  room stored there; what an address holds before it is first written is arbitrary.
  The result \<^verbatim>\<open>NULL\<close> of a lookup is \<open>None\<close>.
\<close>

type_synonym room_ptr = int

type_synonym memory = "room_ptr \<Rightarrow> maze_room"

text \<open>
  The address \<^verbatim>\<open>&maze[i][j]\<close> of the parameter
  \<^verbatim>\<open>struct maze_room maze[num_rows][num_cols]\<close>: the array is laid out row by row, each
  row holding \<^verbatim>\<open>num_cols\<close> rooms.
\<close>

definition maze_at :: "c_int \<Rightarrow> room_ptr \<Rightarrow> c_int \<Rightarrow> c_int \<Rightarrow> room_ptr" where
  "maze_at num_cols maze i j = maze + sint i * sint num_cols + sint j"

subsection \<open>is_in_range\<close>

definition is_in_range :: "c_int \<Rightarrow> c_int \<Rightarrow> c_int \<Rightarrow> c_int \<Rightarrow> c_int" where
  "is_in_range r c num_rows num_cols =
     (if sint num_rows \<le> sint r \<or> sint r < 0 \<or> sint num_cols \<le> sint c \<or> sint c < 0
      then 0 else 1)"

subsection \<open>get_neighbor\<close>

text \<open>
  The function reads the two coordinates through the pointer \<^verbatim>\<open>room\<close> and returns an
  address or \<^verbatim>\<open>NULL\<close>. The memory is threaded through the call and returned with the
  result, so that what the call leaves in memory can be stated.
\<close>

definition get_neighbor ::
  "c_int \<Rightarrow> c_int \<Rightarrow> room_ptr \<Rightarrow> room_ptr \<Rightarrow> Direction \<Rightarrow> memory \<Rightarrow> room_ptr option \<times> memory" where
  "get_neighbor num_rows num_cols maze room dir mem =
     (if dir = NORTH then
        (if is_in_range (row (mem room) - 1) (col (mem room)) num_rows num_cols = 1
         then (Some (maze_at num_cols maze (row (mem room) - 1) (col (mem room))), mem)
         else (None, mem))
      else if dir = SOUTH then
        (if is_in_range (row (mem room) + 1) (col (mem room)) num_rows num_cols = 1
         then (Some (maze_at num_cols maze (row (mem room) + 1) (col (mem room))), mem)
         else (None, mem))
      else if dir = WEST then
        (if is_in_range (row (mem room)) (col (mem room) - 1) num_rows num_cols = 1
         then (Some (maze_at num_cols maze (row (mem room)) (col (mem room) - 1)), mem)
         else (None, mem))
      else
        (if is_in_range (row (mem room)) (col (mem room) + 1) num_rows num_cols = 1
         then (Some (maze_at num_cols maze (row (mem room)) (col (mem room) + 1)), mem)
         else (None, mem)))"

subsection \<open>initialize_maze\<close>

text \<open>
  The inner loop \<^verbatim>\<open>for (int j = 0; j < num_cols; j++)\<close>, entered at column \<open>j\<close> of row
  \<open>i\<close>: each iteration stores a fresh room at \<^verbatim>\<open>maze[i][j]\<close>. The counter stays
  below \<open>num_cols\<close>, so the increment does not overflow and the distance to the bound
  decreases.
\<close>

function initialize_maze_cols :: "c_int \<Rightarrow> room_ptr \<Rightarrow> c_int \<Rightarrow> c_int \<Rightarrow> memory \<Rightarrow> memory" where
  "initialize_maze_cols num_cols maze i j mem =
     (if sint j < sint num_cols then
        initialize_maze_cols num_cols maze i (j + 1)
          (mem(maze_at num_cols maze i j :=
                 \<lparr>row = i, col = j, walls = [- 1, - 1, - 1, - 1], visited = 0\<rparr>))
      else mem)"
  by pat_completeness auto
termination
proof (relation "measure (\<lambda>(num_cols, maze, i, j, mem). nat (sint num_cols - sint j))")
  fix num_cols i j :: c_int and maze :: room_ptr and mem :: memory
  assume below: "sint j < sint num_cols"
  moreover have "sint num_cols < 2 ^ 31" "- (2 ^ 31) \<le> sint j"
    using sint_lt [of num_cols] sint_ge [of j] by simp_all
  ultimately have "sint (j + 1) = sint j + 1"
    by (simp add: sint_word_add signed_take_bit_int_eq_self)
  with below show "((num_cols, maze, i, j + 1,
        mem(maze_at num_cols maze i j :=
              \<lparr>row = i, col = j, walls = [- 1, - 1, - 1, - 1], visited = 0\<rparr>)),
       (num_cols, maze, i, j, mem))
      \<in> measure (\<lambda>(num_cols, maze, i, j, mem). nat (sint num_cols - sint j))"
    by simp
qed simp

text \<open>
  The outer loop \<^verbatim>\<open>for (int i = 0; i < num_rows; i++)\<close>, entered at row \<open>i\<close>: each
  iteration runs the inner loop from column 0.
\<close>

function initialize_maze_rows :: "c_int \<Rightarrow> c_int \<Rightarrow> room_ptr \<Rightarrow> c_int \<Rightarrow> memory \<Rightarrow> memory" where
  "initialize_maze_rows num_rows num_cols maze i mem =
     (if sint i < sint num_rows then
        initialize_maze_rows num_rows num_cols maze (i + 1)
          (initialize_maze_cols num_cols maze i 0 mem)
      else mem)"
  by pat_completeness auto
termination
proof (relation "measure (\<lambda>(num_rows, num_cols, maze, i, mem). nat (sint num_rows - sint i))")
  fix num_rows num_cols i :: c_int and maze :: room_ptr and mem :: memory
  assume below: "sint i < sint num_rows"
  moreover have "sint num_rows < 2 ^ 31" "- (2 ^ 31) \<le> sint i"
    using sint_lt [of num_rows] sint_ge [of i] by simp_all
  ultimately have "sint (i + 1) = sint i + 1"
    by (simp add: sint_word_add signed_take_bit_int_eq_self)
  with below show "((num_rows, num_cols, maze, i + 1, initialize_maze_cols num_cols maze i 0 mem),
       (num_rows, num_cols, maze, i, mem))
      \<in> measure (\<lambda>(num_rows, num_cols, maze, i, mem). nat (sint num_rows - sint i))"
    by simp
qed simp

definition initialize_maze :: "c_int \<Rightarrow> c_int \<Rightarrow> room_ptr \<Rightarrow> memory \<Rightarrow> memory" where
  "initialize_maze num_rows num_cols maze mem = initialize_maze_rows num_rows num_cols maze 0 mem"

declare initialize_maze_cols.simps [simp del]
declare initialize_maze_rows.simps [simp del]

subsection \<open>The loops of initialize_maze with no termination assumed\<close>

text \<open>
  The same two loops once more, as partial functions: the equations are the loops of
  the source and nothing is said about their ending, a run that never leaves a loop
  has the value \<open>None\<close>. They serve to state that \<^verbatim>\<open>initialize_maze\<close> returns.
\<close>

partial_function (option) initialize_maze_cols_while ::
  "c_int \<Rightarrow> room_ptr \<Rightarrow> c_int \<Rightarrow> c_int \<Rightarrow> memory \<Rightarrow> memory option" where
  "initialize_maze_cols_while num_cols maze i j mem =
     (if sint j < sint num_cols then
        initialize_maze_cols_while num_cols maze i (j + 1)
          (mem(maze_at num_cols maze i j :=
                 \<lparr>row = i, col = j, walls = [- 1, - 1, - 1, - 1], visited = 0\<rparr>))
      else Some mem)"

partial_function (option) initialize_maze_rows_while ::
  "c_int \<Rightarrow> c_int \<Rightarrow> room_ptr \<Rightarrow> c_int \<Rightarrow> memory \<Rightarrow> memory option" where
  "initialize_maze_rows_while num_rows num_cols maze i mem =
     (if sint i < sint num_rows then
        (case initialize_maze_cols_while num_cols maze i 0 mem of
           None \<Rightarrow> None
         | Some mem' \<Rightarrow> initialize_maze_rows_while num_rows num_cols maze (i + 1) mem')
      else Some mem)"

definition initialize_maze_while :: "c_int \<Rightarrow> c_int \<Rightarrow> room_ptr \<Rightarrow> memory \<Rightarrow> memory option" where
  "initialize_maze_while num_rows num_cols maze mem =
     initialize_maze_rows_while num_rows num_cols maze 0 mem"

subsection \<open>The grid invariant\<close>

text \<open>
  A grid of \<open>num_rows\<close> by \<open>num_cols\<close> rooms at \<open>maze\<close> records its positions when the
  room stored at \<^verbatim>\<open>maze[i][j]\<close> carries \<open>row = i\<close> and \<open>col = j\<close>, for every cell of the
  grid. The functions do not check it; the statements about rooms of a grid assume it.
\<close>

definition rooms_record_positions :: "c_int \<Rightarrow> c_int \<Rightarrow> room_ptr \<Rightarrow> memory \<Rightarrow> bool" where
  "rooms_record_positions num_rows num_cols maze mem \<longleftrightarrow>
     (\<forall>i j. 0 \<le> sint i \<and> sint i < sint num_rows \<and> 0 \<le> sint j \<and> sint j < sint num_cols \<longrightarrow>
        row (mem (maze_at num_cols maze i j)) = i \<and> col (mem (maze_at num_cols maze i j)) = j)"

section \<open>Signed arithmetic and addresses\<close>

text \<open>
  A value below a signed bound can be incremented without overflow, and a value above
  a signed bound can be decremented without overflow.
\<close>

lemma sint_succ:
  fixes j n :: c_int
  assumes "sint j < sint n"
  shows "sint (j + 1) = sint j + 1"
proof -
  have "sint n < 2 ^ 31"
    using sint_lt [of n] by simp
  moreover have "- (2 ^ 31) \<le> sint j"
    using sint_ge [of j] by simp
  ultimately have "signed_take_bit 31 (sint j + 1) = sint j + 1"
    using assms by (intro signed_take_bit_int_eq_self) auto
  then show ?thesis
    by (simp add: sint_word_add)
qed

lemma sint_pred:
  fixes j n :: c_int
  assumes "sint n < sint j"
  shows "sint (j - 1) = sint j - 1"
proof -
  have "sint j < 2 ^ 31"
    using sint_lt [of j] by simp
  moreover have "- (2 ^ 31) \<le> sint n"
    using sint_ge [of n] by simp
  ultimately have "signed_take_bit 31 (sint j - 1) = sint j - 1"
    using assms by (intro signed_take_bit_int_eq_self) auto
  then show ?thesis
    by (simp add: sint_word_diff)
qed

lemma sint_pred_nonneg:
  fixes j :: c_int
  assumes "0 \<le> sint j"
  shows "sint (j - 1) = sint j - 1"
proof -
  have "sint (- 1 :: c_int) < sint j"
    using assms by simp
  then show ?thesis
    by (rule sint_pred)
qed

lemma sint_eqD:
  fixes a b :: c_int
  shows "sint a = sint b \<Longrightarrow> a = b"
  by (rule signed_word_eqI)

text \<open>
  Two cells of a row-major array share an address only when they are the same cell,
  as long as both column indices lie within a row.
\<close>

lemma row_major_unique:
  fixes x x' y y' c :: int
  assumes "0 \<le> y" "y < c" "0 \<le> y'" "y' < c" "x * c + y = x' * c + y'"
  shows "x = x' \<and> y = y'"
proof -
  have l: "(x * c + y) div c = x"
    using assms(1,2) by (simp add: div_pos_pos_trivial)
  have r: "(x' * c + y') div c = x'"
    using assms(3,4) by (simp add: div_pos_pos_trivial)
  have "x = x'"
    using l r by (simp only: assms(5))
  with assms(5) show ?thesis
    by simp
qed

lemma maze_at_inj:
  assumes "0 \<le> sint j" "sint j < sint nc" "0 \<le> sint j'" "sint j' < sint nc"
    and "maze_at nc maze i j = maze_at nc maze i' j'"
  shows "i = i' \<and> j = j'"
proof -
  have "sint i * sint nc + sint j = sint i' * sint nc + sint j'"
    using assms(5) by (simp add: maze_at_def)
  with assms(1-4) have "sint i = sint i' \<and> sint j = sint j'"
    by (rule row_major_unique)
  then show ?thesis
    by (simp add: sint_eqD)
qed

section \<open>What the loops of initialize_maze store\<close>

text \<open>
  The inner loop entered at column \<open>j\<close> leaves every address alone that is not a cell
  of row \<open>i\<close> from column \<open>j\<close> on, and stores the fresh room in each of those cells.
\<close>

lemma cols_frame:
  "(\<And>j'. sint j \<le> sint j' \<Longrightarrow> sint j' < sint nc \<Longrightarrow> a \<noteq> maze_at nc maze i j') \<Longrightarrow>
   initialize_maze_cols nc maze i j mem a = mem a"
proof (induction nc maze i j mem rule: initialize_maze_cols.induct)
  case (1 nc maze i j mem)
  show ?case
  proof (cases "sint j < sint nc")
    case True
    then have s: "sint (j + 1) = sint j + 1"
      by (rule sint_succ)
    have "initialize_maze_cols nc maze i (j + 1)
            (mem(maze_at nc maze i j :=
                 \<lparr>row = i, col = j, walls = [- 1, - 1, - 1, - 1], visited = 0\<rparr>)) a
          = (mem(maze_at nc maze i j :=
                 \<lparr>row = i, col = j, walls = [- 1, - 1, - 1, - 1], visited = 0\<rparr>)) a"
      using True s "1.prems" by (intro "1.IH") auto
    moreover have "a \<noteq> maze_at nc maze i j"
      using True "1.prems" by simp
    ultimately show ?thesis
      using True by (simp add: initialize_maze_cols.simps [of nc maze i j])
  next
    case False
    then show ?thesis
      by (simp add: initialize_maze_cols.simps [of nc maze i j])
  qed
qed


lemma cols_written:
  "sint j \<le> sint j' \<Longrightarrow> sint j' < sint nc \<Longrightarrow>
   initialize_maze_cols nc maze i j mem (maze_at nc maze i j') =
     \<lparr>row = i, col = j', walls = [- 1, - 1, - 1, - 1], visited = 0\<rparr>"
proof (induction nc maze i j mem rule: initialize_maze_cols.induct)
  case (1 nc maze i j mem)
  let ?mem' = "mem(maze_at nc maze i j :=
                 \<lparr>row = i, col = j, walls = [- 1, - 1, - 1, - 1], visited = 0\<rparr>)"
  from "1.prems" have lt: "sint j < sint nc"
    by simp
  then have s: "sint (j + 1) = sint j + 1"
    by (rule sint_succ)
  have unfold: "initialize_maze_cols nc maze i j mem = initialize_maze_cols nc maze i (j + 1) ?mem'"
    using lt by (simp add: initialize_maze_cols.simps [of nc maze i j])
  show ?case
  proof (cases "sint j' = sint j")
    case True
    then have eq: "j' = j"
      by (rule sint_eqD)
    have "initialize_maze_cols nc maze i (j + 1) ?mem' (maze_at nc maze i j) =
          ?mem' (maze_at nc maze i j)"
      by (rule cols_frame) (simp add: maze_at_def s)
    then show ?thesis
      by (simp add: unfold eq)
  next
    case False
    with "1.prems" s have "sint (j + 1) \<le> sint j'"
      by simp
    with lt "1.prems" show ?thesis
      by (simp add: unfold "1.IH")
  qed
qed

text \<open>The outer loop entered at row \<open>i\<close>, likewise, for the rows from \<open>i\<close> on.\<close>

lemma rows_frame:
  "(\<And>i' j'. sint i \<le> sint i' \<Longrightarrow> sint i' < sint nr \<Longrightarrow> 0 \<le> sint j' \<Longrightarrow> sint j' < sint nc \<Longrightarrow>
      a \<noteq> maze_at nc maze i' j') \<Longrightarrow>
   initialize_maze_rows nr nc maze i mem a = mem a"
proof (induction nr nc maze i mem rule: initialize_maze_rows.induct)
  case (1 nr nc maze i mem)
  show ?case
  proof (cases "sint i < sint nr")
    case True
    then have s: "sint (i + 1) = sint i + 1"
      by (rule sint_succ)
    have "initialize_maze_rows nr nc maze (i + 1) (initialize_maze_cols nc maze i 0 mem) a =
          initialize_maze_cols nc maze i 0 mem a"
      using True s "1.prems" by (intro "1.IH") auto
    also have "\<dots> = mem a"
      using True "1.prems" by (intro cols_frame) auto
    finally show ?thesis
      using True by (simp add: initialize_maze_rows.simps [of nr nc maze i])
  next
    case False
    then show ?thesis
      by (simp add: initialize_maze_rows.simps [of nr nc maze i])
  qed
qed

lemma rows_written:
  "sint i \<le> sint i' \<Longrightarrow> sint i' < sint nr \<Longrightarrow> 0 \<le> sint j' \<Longrightarrow> sint j' < sint nc \<Longrightarrow>
   initialize_maze_rows nr nc maze i mem (maze_at nc maze i' j') =
     \<lparr>row = i', col = j', walls = [- 1, - 1, - 1, - 1], visited = 0\<rparr>"
proof (induction nr nc maze i mem rule: initialize_maze_rows.induct)
  case (1 nr nc maze i mem)
  let ?mem' = "initialize_maze_cols nc maze i 0 mem"
  from "1.prems" have lt: "sint i < sint nr"
    by simp
  then have s: "sint (i + 1) = sint i + 1"
    by (rule sint_succ)
  have unfold: "initialize_maze_rows nr nc maze i mem = initialize_maze_rows nr nc maze (i + 1) ?mem'"
    using lt by (simp add: initialize_maze_rows.simps [of nr nc maze i])
  show ?case
  proof (cases "sint i' = sint i")
    case True
    then have eq: "i' = i"
      by (rule sint_eqD)
    have "initialize_maze_rows nr nc maze (i + 1) ?mem' (maze_at nc maze i j') =
          ?mem' (maze_at nc maze i j')"
    proof (rule rows_frame)
      fix i'' j'' :: c_int
      assume "sint (i + 1) \<le> sint i''" and j'': "0 \<le> sint j''" "sint j'' < sint nc"
      with s have "i \<noteq> i''"
        by auto
      with "1.prems"(3,4) j'' show "maze_at nc maze i j' \<noteq> maze_at nc maze i'' j''"
        using maze_at_inj [of j' nc j'' maze i i''] by blast
    qed
    also have "\<dots> = \<lparr>row = i, col = j', walls = [- 1, - 1, - 1, - 1], visited = 0\<rparr>"
      using "1.prems"(3,4) by (intro cols_written) simp_all
    finally show ?thesis
      by (simp add: unfold eq)
  next
    case False
    with "1.prems" s have "sint (i + 1) \<le> sint i'"
      by simp
    with lt "1.prems" show ?thesis
      by (simp add: unfold "1.IH")
  qed
qed

lemma initialize_maze_cell:
  "0 \<le> sint i \<Longrightarrow> sint i < sint nr \<Longrightarrow> 0 \<le> sint j \<Longrightarrow> sint j < sint nc \<Longrightarrow>
   initialize_maze nr nc maze mem (maze_at nc maze i j) =
     \<lparr>row = i, col = j, walls = [- 1, - 1, - 1, - 1], visited = 0\<rparr>"
  unfolding initialize_maze_def by (rule rows_written) simp_all

lemma initialize_maze_frame:
  "(\<And>i j. 0 \<le> sint i \<Longrightarrow> sint i < sint nr \<Longrightarrow> 0 \<le> sint j \<Longrightarrow> sint j < sint nc \<Longrightarrow>
      a \<noteq> maze_at nc maze i j) \<Longrightarrow>
   initialize_maze nr nc maze mem a = mem a"
  unfolding initialize_maze_def by (rule rows_frame) simp

lemma rooms_record_positions_initialize_maze:
  "rooms_record_positions nr nc maze (initialize_maze nr nc maze mem)"
  by (simp add: rooms_record_positions_def initialize_maze_cell)

text \<open>Every run of the loops returns, with the memory the total functions compute.\<close>

lemma cols_while_returns:
  "initialize_maze_cols_while nc maze i j mem = Some (initialize_maze_cols nc maze i j mem)"
proof (induction nc maze i j mem rule: initialize_maze_cols.induct)
  case (1 nc maze i j mem)
  let ?mem' = "mem(maze_at nc maze i j :=
                 \<lparr>row = i, col = j, walls = [- 1, - 1, - 1, - 1], visited = 0\<rparr>)"
  show ?case
  proof (cases "sint j < sint nc")
    case True
    have "initialize_maze_cols_while nc maze i j mem =
          initialize_maze_cols_while nc maze i (j + 1) ?mem'"
      using True by (subst initialize_maze_cols_while.simps) (simp add: fun_upd_def)
    also have "\<dots> = Some (initialize_maze_cols nc maze i (j + 1) ?mem')"
      using True by (rule "1.IH")
    also have "\<dots> = Some (initialize_maze_cols nc maze i j mem)"
      using True by (simp add: initialize_maze_cols.simps [of nc maze i j])
    finally show ?thesis .
  next
    case False
    then show ?thesis
      by (simp add: initialize_maze_cols_while.simps [of nc maze i j]
          initialize_maze_cols.simps [of nc maze i j])
  qed
qed

lemma rows_while_returns:
  "initialize_maze_rows_while nr nc maze i mem = Some (initialize_maze_rows nr nc maze i mem)"
proof (induction nr nc maze i mem rule: initialize_maze_rows.induct)
  case (1 nr nc maze i mem)
  show ?case
  proof (cases "sint i < sint nr")
    case True
    then show ?thesis
      by (simp add: initialize_maze_rows_while.simps [of nr nc maze i]
          initialize_maze_rows.simps [of nr nc maze i] cols_while_returns "1.IH")
  next
    case False
    then show ?thesis
      by (simp add: initialize_maze_rows_while.simps [of nr nc maze i]
          initialize_maze_rows.simps [of nr nc maze i])
  qed
qed

section \<open>Lookups from a room of the grid\<close>

lemma get_neighbor_snd:
  "snd (get_neighbor nr nc maze room dir mem) = mem"
  by (simp add: get_neighbor_def)

lemma recorded_position:
  assumes "rooms_record_positions nr nc maze mem"
    and "0 \<le> sint i" "sint i < sint nr" "0 \<le> sint j" "sint j < sint nc"
  shows "row (mem (maze_at nc maze i j)) = i" and "col (mem (maze_at nc maze i j)) = j"
  using assms by (simp_all add: rooms_record_positions_def)

lemma get_neighbor_cell:
  assumes "rooms_record_positions nr nc maze mem"
    and "0 \<le> sint i" "sint i < sint nr" "0 \<le> sint j" "sint j < sint nc"
  shows "fst (get_neighbor nr nc maze (maze_at nc maze i j) NORTH mem) =
           (if 0 < sint i then Some (maze_at nc maze (i - 1) j) else None)"
    and "fst (get_neighbor nr nc maze (maze_at nc maze i j) SOUTH mem) =
           (if sint i + 1 < sint nr then Some (maze_at nc maze (i + 1) j) else None)"
    and "fst (get_neighbor nr nc maze (maze_at nc maze i j) WEST mem) =
           (if 0 < sint j then Some (maze_at nc maze i (j - 1)) else None)"
    and "fst (get_neighbor nr nc maze (maze_at nc maze i j) EAST mem) =
           (if sint j + 1 < sint nc then Some (maze_at nc maze i (j + 1)) else None)"
proof -
  note pos = recorded_position [OF assms]
  have pr: "sint (i - 1) = sint i - 1" and pc: "sint (j - 1) = sint j - 1"
    using assms(2,4) by (simp_all add: sint_pred_nonneg)
  have sr: "sint (i + 1) = sint i + 1" and sc: "sint (j + 1) = sint j + 1"
    using assms(3,5) by (simp_all add: sint_succ [of _ nr] sint_succ [of _ nc])
  show "fst (get_neighbor nr nc maze (maze_at nc maze i j) NORTH mem) =
           (if 0 < sint i then Some (maze_at nc maze (i - 1) j) else None)"
    using assms(2-5) by (simp add: get_neighbor_def is_in_range_def pos pr)
  show "fst (get_neighbor nr nc maze (maze_at nc maze i j) SOUTH mem) =
           (if sint i + 1 < sint nr then Some (maze_at nc maze (i + 1) j) else None)"
    using assms(2-5) by (simp add: get_neighbor_def is_in_range_def pos sr)
  show "fst (get_neighbor nr nc maze (maze_at nc maze i j) WEST mem) =
           (if 0 < sint j then Some (maze_at nc maze i (j - 1)) else None)"
    using assms(2-5) by (simp add: get_neighbor_def is_in_range_def pos pc)
  show "fst (get_neighbor nr nc maze (maze_at nc maze i j) EAST mem) =
           (if sint j + 1 < sint nc then Some (maze_at nc maze i (j + 1)) else None)"
    using assms(2-5) by (simp add: get_neighbor_def is_in_range_def pos sc)
qed

section \<open>Bounds check\<close>

text \<open>
  C2. For all integer inputs, negative and far out of range included, is_in_range
  returns true if and only if 0 <= row < num_rows and 0 <= col < num_cols. The result
  is the C truth value 1 in that case and 0 otherwise. The function receives its four
  integers by value: it has no memory to read or write and no failing branch.
\<close>

theorem is_in_range_iff:
  "(is_in_range r c num_rows num_cols = 1 \<longleftrightarrow>
      0 \<le> sint r \<and> sint r < sint num_rows \<and> 0 \<le> sint c \<and> sint c < sint num_cols) \<and>
   (is_in_range r c num_rows num_cols \<noteq> 0 \<longleftrightarrow>
      0 \<le> sint r \<and> sint r < sint num_rows \<and> 0 \<le> sint c \<and> sint c < sint num_cols) \<and>
   (is_in_range r c num_rows num_cols = 0 \<or> is_in_range r c num_rows num_cols = 1)"
  by (auto simp: is_in_range_def)

section \<open>Neighbour lookup\<close>

text \<open>
  C1. In a grid of num_rows by num_cols rooms that record their positions, take the
  room at cell (i, j) and a direction. Let (r', c') be the cell one step away: North
  is row - 1, South is row + 1, West is col - 1, East is col + 1. Then get_neighbor
  returns NULL if and only if (r', c') lies outside the grid, and otherwise it returns
  the address of \<^verbatim>\<open>maze[r'][c']\<close>, the room of the grid that records (r', c').
\<close>

theorem get_neighbor_offset:
  assumes "rooms_record_positions num_rows num_cols maze mem"
    and "0 \<le> sint i" "sint i < sint num_rows" "0 \<le> sint j" "sint j < sint num_cols"
  shows "let r' = sint i + (case dir of NORTH \<Rightarrow> - 1 | SOUTH \<Rightarrow> 1 | WEST \<Rightarrow> 0 | EAST \<Rightarrow> 0);
             c' = sint j + (case dir of NORTH \<Rightarrow> 0 | SOUTH \<Rightarrow> 0 | WEST \<Rightarrow> - 1 | EAST \<Rightarrow> 1);
             inside = (0 \<le> r' \<and> r' < sint num_rows \<and> 0 \<le> c' \<and> c' < sint num_cols);
             result = fst (get_neighbor num_rows num_cols maze (maze_at num_cols maze i j) dir mem)
         in (result = None \<longleftrightarrow> \<not> inside) \<and>
            (inside \<longrightarrow>
               result = Some (maze + r' * sint num_cols + c') \<and>
               sint (row (mem (maze + r' * sint num_cols + c'))) = r' \<and>
               sint (col (mem (maze + r' * sint num_cols + c'))) = c')"
proof -
  note cell = get_neighbor_cell [OF assms]
  have pr: "sint (i - 1) = sint i - 1" and pc: "sint (j - 1) = sint j - 1"
    using assms(2,4) by (simp_all add: sint_pred_nonneg)
  have sr: "sint (i + 1) = sint i + 1" and sc: "sint (j + 1) = sint j + 1"
    using assms(3,5) by (simp_all add: sint_succ [of _ num_rows] sint_succ [of _ num_cols])
  have addr:
    "maze_at num_cols maze (i - 1) j = maze + (sint i - 1) * sint num_cols + sint j"
    "maze_at num_cols maze (i + 1) j = maze + (sint i + 1) * sint num_cols + sint j"
    "maze_at num_cols maze i (j - 1) = maze + sint i * sint num_cols + (sint j - 1)"
    "maze_at num_cols maze i (j + 1) = maze + sint i * sint num_cols + (sint j + 1)"
    by (simp_all add: maze_at_def pr pc sr sc)
  show ?thesis
  proof (cases dir)
    case NORTH
    have "0 < sint i \<Longrightarrow> row (mem (maze_at num_cols maze (i - 1) j)) = i - 1 \<and>
                           col (mem (maze_at num_cols maze (i - 1) j)) = j"
      using assms by (simp add: recorded_position pr)
    then show ?thesis
      using assms(2-5) by (auto simp: NORTH cell(1) Let_def addr pr)
  next
    case SOUTH
    have "sint i + 1 < sint num_rows \<Longrightarrow> row (mem (maze_at num_cols maze (i + 1) j)) = i + 1 \<and>
                           col (mem (maze_at num_cols maze (i + 1) j)) = j"
      using assms by (simp add: recorded_position sr)
    then show ?thesis
      using assms(2-5) by (auto simp: SOUTH cell(2) Let_def addr sr)
  next
    case WEST
    have "0 < sint j \<Longrightarrow> row (mem (maze_at num_cols maze i (j - 1))) = i \<and>
                           col (mem (maze_at num_cols maze i (j - 1))) = j - 1"
      using assms by (simp add: recorded_position pc)
    then show ?thesis
      using assms(2-5) by (auto simp: WEST cell(3) Let_def addr pc)
  next
    case EAST
    have "sint j + 1 < sint num_cols \<Longrightarrow> row (mem (maze_at num_cols maze i (j + 1))) = i \<and>
                           col (mem (maze_at num_cols maze i (j + 1))) = j + 1"
      using assms by (simp add: recorded_position sc)
    then show ?thesis
      using assms(2-5) by (auto simp: EAST cell(4) Let_def addr sc)
  qed
qed

text \<open>
  The theorem at the room (1, 2) of an initialised 3 by 3 grid at address 100: North
  of it is the room (0, 2) at address 102, East of it is outside the grid.
\<close>

theorem get_neighbor_offset_witness:
  "rooms_record_positions 3 3 100 (initialize_maze 3 3 100 (\<lambda>a. \<lparr>row = 7, col = 7, walls = [], visited = 1\<rparr>)) \<and>
   0 \<le> sint (1 :: c_int) \<and> sint (1 :: c_int) < sint (3 :: c_int) \<and>
   0 \<le> sint (2 :: c_int) \<and> sint (2 :: c_int) < sint (3 :: c_int) \<and>
   maze_at 3 100 1 2 = 105 \<and>
   fst (get_neighbor 3 3 100 105 NORTH
         (initialize_maze 3 3 100 (\<lambda>a. \<lparr>row = 7, col = 7, walls = [], visited = 1\<rparr>))) = Some 102 \<and>
   fst (get_neighbor 3 3 100 105 EAST
         (initialize_maze 3 3 100 (\<lambda>a. \<lparr>row = 7, col = 7, walls = [], visited = 1\<rparr>))) = None"
proof -
  let ?mem = "initialize_maze 3 3 100 (\<lambda>a. \<lparr>row = 7, col = 7, walls = [], visited = 1\<rparr>)"
  have inv: "rooms_record_positions 3 3 100 ?mem"
    by (rule rooms_record_positions_initialize_maze)
  show ?thesis
    using inv get_neighbor_offset [OF inv, where i = 1 and j = 2 and dir = NORTH]
      get_neighbor_offset [OF inv, where i = 1 and j = 2 and dir = EAST]
    by (simp add: Let_def maze_at_def)
qed

text \<open>
  C4. In a grid whose rooms record their positions, whenever get_neighbor succeeds
  from a room of the grid in some direction, get_neighbor from the room it returned in
  the opposite direction returns the original room: South undoes North, North undoes
  South, East undoes West and West undoes East.
\<close>

theorem get_neighbor_round_trip:
  assumes "rooms_record_positions num_rows num_cols maze mem"
    and "0 \<le> sint i" "sint i < sint num_rows" "0 \<le> sint j" "sint j < sint num_cols"
    and "get_neighbor num_rows num_cols maze (maze_at num_cols maze i j) dir mem = (Some q, mem')"
  shows "fst (get_neighbor num_rows num_cols maze q
               (case dir of NORTH \<Rightarrow> SOUTH | SOUTH \<Rightarrow> NORTH | WEST \<Rightarrow> EAST | EAST \<Rightarrow> WEST) mem') =
         Some (maze_at num_cols maze i j)"
proof -
  note inv = assms(1) and rng = assms(2-5)
  note cell = get_neighbor_cell [OF assms(1-5)]
  have pr: "sint (i - 1) = sint i - 1" and pc: "sint (j - 1) = sint j - 1"
    using rng by (simp_all add: sint_pred_nonneg)
  have sr: "sint (i + 1) = sint i + 1" and sc: "sint (j + 1) = sint j + 1"
    using rng by (simp_all add: sint_succ [of _ num_rows] sint_succ [of _ num_cols])
  have mem': "mem' = mem"
    using assms(6) by (simp add: get_neighbor_def split: if_splits)
  have first: "fst (get_neighbor num_rows num_cols maze (maze_at num_cols maze i j) dir mem) = Some q"
    using assms(6) by simp
  show ?thesis
  proof (cases dir)
    case NORTH
    with first cell(1) have up: "0 < sint i" and q: "q = maze_at num_cols maze (i - 1) j"
      by (simp_all split: if_splits)
    from up rng pr have "fst (get_neighbor num_rows num_cols maze (maze_at num_cols maze (i - 1) j) SOUTH mem) =
        Some (maze_at num_cols maze (i - 1 + 1) j)"
      by (simp add: get_neighbor_cell(2) [OF inv])
    then show ?thesis
      by (simp add: NORTH q mem')
  next
    case SOUTH
    with first cell(2) have dn: "sint i + 1 < sint num_rows" and q: "q = maze_at num_cols maze (i + 1) j"
      by (simp_all split: if_splits)
    from dn rng sr have "fst (get_neighbor num_rows num_cols maze (maze_at num_cols maze (i + 1) j) NORTH mem) =
        Some (maze_at num_cols maze (i + 1 - 1) j)"
      by (simp add: get_neighbor_cell(1) [OF inv])
    then show ?thesis
      by (simp add: SOUTH q mem')
  next
    case WEST
    with first cell(3) have lf: "0 < sint j" and q: "q = maze_at num_cols maze i (j - 1)"
      by (simp_all split: if_splits)
    from lf rng pc have "fst (get_neighbor num_rows num_cols maze (maze_at num_cols maze i (j - 1)) EAST mem) =
        Some (maze_at num_cols maze i (j - 1 + 1))"
      by (simp add: get_neighbor_cell(4) [OF inv])
    then show ?thesis
      by (simp add: WEST q mem')
  next
    case EAST
    with first cell(4) have rt: "sint j + 1 < sint num_cols" and q: "q = maze_at num_cols maze i (j + 1)"
      by (simp_all split: if_splits)
    from rt rng sc have "fst (get_neighbor num_rows num_cols maze (maze_at num_cols maze i (j + 1)) WEST mem) =
        Some (maze_at num_cols maze i (j + 1 - 1))"
      by (simp add: get_neighbor_cell(3) [OF inv])
    then show ?thesis
      by (simp add: EAST q mem')
  qed
qed

text \<open>
  The theorem at the room (1, 2) of an initialised 3 by 3 grid at address 100: North
  leads to address 102, and South from there leads back to address 105.
\<close>

theorem get_neighbor_round_trip_witness:
  "rooms_record_positions 3 3 100 (initialize_maze 3 3 100 (\<lambda>a. \<lparr>row = 7, col = 7, walls = [], visited = 1\<rparr>)) \<and>
   0 \<le> sint (1 :: c_int) \<and> sint (1 :: c_int) < sint (3 :: c_int) \<and>
   0 \<le> sint (2 :: c_int) \<and> sint (2 :: c_int) < sint (3 :: c_int) \<and>
   maze_at 3 100 1 2 = 105 \<and>
   get_neighbor 3 3 100 105 NORTH
     (initialize_maze 3 3 100 (\<lambda>a. \<lparr>row = 7, col = 7, walls = [], visited = 1\<rparr>)) =
     (Some 102, initialize_maze 3 3 100 (\<lambda>a. \<lparr>row = 7, col = 7, walls = [], visited = 1\<rparr>)) \<and>
   fst (get_neighbor 3 3 100 102 SOUTH
         (initialize_maze 3 3 100 (\<lambda>a. \<lparr>row = 7, col = 7, walls = [], visited = 1\<rparr>))) = Some 105"
proof -
  let ?mem = "initialize_maze 3 3 100 (\<lambda>a. \<lparr>row = 7, col = 7, walls = [], visited = 1\<rparr>)"
  have inv: "rooms_record_positions 3 3 100 ?mem"
    by (rule rooms_record_positions_initialize_maze)
  have addr: "maze_at 3 100 1 2 = 105"
    by (simp add: maze_at_def)
  have "fst (get_neighbor 3 3 100 (maze_at 3 100 1 2) NORTH ?mem) = Some (maze_at 3 100 (1 - 1) 2)"
    by (simp add: get_neighbor_cell(1) [OF inv])
  then have first: "get_neighbor 3 3 100 (maze_at 3 100 1 2) NORTH ?mem = (Some 102, ?mem)"
    by (simp add: prod_eq_iff get_neighbor_snd maze_at_def)
  from get_neighbor_round_trip [OF inv _ _ _ _ first]
  have "fst (get_neighbor 3 3 100 102 SOUTH ?mem) = Some 105"
    by (simp add: addr)
  with inv addr first show ?thesis
    by simp
qed

text \<open>
  C5. On an initialised 3 by 3 grid, get_neighbor from the room at (1, 1) returns the
  rooms at (0, 1), (2, 1), (1, 0) and (1, 2) for North, South, West and East, and
  get_neighbor from the room at (0, 0) returns NULL for North and for West.
\<close>

theorem get_neighbor_3x3:
  "fst (get_neighbor 3 3 maze (maze_at 3 maze 1 1) NORTH (initialize_maze 3 3 maze mem)) = Some (maze_at 3 maze 0 1) \<and>
   fst (get_neighbor 3 3 maze (maze_at 3 maze 1 1) SOUTH (initialize_maze 3 3 maze mem)) = Some (maze_at 3 maze 2 1) \<and>
   fst (get_neighbor 3 3 maze (maze_at 3 maze 1 1) WEST (initialize_maze 3 3 maze mem)) = Some (maze_at 3 maze 1 0) \<and>
   fst (get_neighbor 3 3 maze (maze_at 3 maze 1 1) EAST (initialize_maze 3 3 maze mem)) = Some (maze_at 3 maze 1 2) \<and>
   fst (get_neighbor 3 3 maze (maze_at 3 maze 0 0) NORTH (initialize_maze 3 3 maze mem)) = None \<and>
   fst (get_neighbor 3 3 maze (maze_at 3 maze 0 0) WEST (initialize_maze 3 3 maze mem)) = None"
  by (simp add: get_neighbor_cell [OF rooms_record_positions_initialize_maze])

text \<open>
  C6. On an initialised 1 by 1 grid, get_neighbor from the only room, at (0, 0),
  returns NULL in each of the four directions.
\<close>

theorem get_neighbor_1x1:
  "fst (get_neighbor 1 1 maze (maze_at 1 maze 0 0) NORTH (initialize_maze 1 1 maze mem)) = None \<and>
   fst (get_neighbor 1 1 maze (maze_at 1 maze 0 0) SOUTH (initialize_maze 1 1 maze mem)) = None \<and>
   fst (get_neighbor 1 1 maze (maze_at 1 maze 0 0) WEST (initialize_maze 1 1 maze mem)) = None \<and>
   fst (get_neighbor 1 1 maze (maze_at 1 maze 0 0) EAST (initialize_maze 1 1 maze mem)) = None"
  by (simp add: get_neighbor_cell [OF rooms_record_positions_initialize_maze])

text \<open>
  C7. get_neighbor has no side effect: for every grid, room pointer and direction the
  memory after the call is the memory before it, so no field of any room has changed,
  the input room included.
\<close>

theorem get_neighbor_frame:
  "snd (get_neighbor num_rows num_cols maze room dir mem) = mem \<and>
   snd (get_neighbor num_rows num_cols maze room dir mem) room = mem room"
  by (simp add: get_neighbor_def)

section \<open>Grid initialisation\<close>

text \<open>
  C3. For all num_rows >= 1 and num_cols >= 1, after initialize_maze every cell (i, j)
  with 0 <= i < num_rows and 0 <= j < num_cols holds a room with row = i, col = j,
  the four walls entries equal to -1 and visited = 0.
\<close>

theorem initialize_maze_rooms:
  assumes "1 \<le> sint num_rows" "1 \<le> sint num_cols"
    and "0 \<le> sint i" "sint i < sint num_rows" "0 \<le> sint j" "sint j < sint num_cols"
  shows "row (initialize_maze num_rows num_cols maze mem (maze_at num_cols maze i j)) = i \<and>
         col (initialize_maze num_rows num_cols maze mem (maze_at num_cols maze i j)) = j \<and>
         walls (initialize_maze num_rows num_cols maze mem (maze_at num_cols maze i j)) = [- 1, - 1, - 1, - 1] \<and>
         visited (initialize_maze num_rows num_cols maze mem (maze_at num_cols maze i j)) = 0"
  using assms(3-6) by (simp add: initialize_maze_cell)

text \<open>
  The theorem at cell (1, 2) of a 2 by 3 grid at address 100, over a memory that held
  other rooms before.
\<close>

theorem initialize_maze_rooms_witness:
  "1 \<le> sint (2 :: c_int) \<and> 1 \<le> sint (3 :: c_int) \<and>
   0 \<le> sint (1 :: c_int) \<and> sint (1 :: c_int) < sint (2 :: c_int) \<and>
   0 \<le> sint (2 :: c_int) \<and> sint (2 :: c_int) < sint (3 :: c_int) \<and>
   maze_at 3 100 1 2 = 105 \<and>
   row (initialize_maze 2 3 100 (\<lambda>a. \<lparr>row = 7, col = 7, walls = [], visited = 1\<rparr>) 105) = 1 \<and>
   col (initialize_maze 2 3 100 (\<lambda>a. \<lparr>row = 7, col = 7, walls = [], visited = 1\<rparr>) 105) = 2 \<and>
   walls (initialize_maze 2 3 100 (\<lambda>a. \<lparr>row = 7, col = 7, walls = [], visited = 1\<rparr>) 105) = [- 1, - 1, - 1, - 1] \<and>
   visited (initialize_maze 2 3 100 (\<lambda>a. \<lparr>row = 7, col = 7, walls = [], visited = 1\<rparr>) 105) = 0"
  using initialize_maze_rooms [where num_rows = 2 and num_cols = 3 and i = 1 and j = 2 and maze = 100
      and mem = "\<lambda>a. \<lparr>row = 7, col = 7, walls = [], visited = 1\<rparr>"]
  by (simp add: maze_at_def)

text \<open>
  C8. Every operation returns on every input. The bodies of is_in_range and
  get_neighbor are straight-line code, embedded as closed expressions with a value at
  every argument. The double loop of initialize_maze, taken with no termination
  assumed, returns for every pair of integer dimensions, the non-positive ones
  included, and returns the memory the total embedding computes.
\<close>

theorem initialize_maze_terminates:
  "(is_in_range r c num_rows num_cols = 0 \<or> is_in_range r c num_rows num_cols = 1) \<and>
   (\<exists>result. get_neighbor num_rows num_cols maze room dir mem = (result, mem)) \<and>
   initialize_maze_while num_rows num_cols maze mem =
     Some (initialize_maze num_rows num_cols maze mem)"
proof (intro conjI)
  show "is_in_range r c num_rows num_cols = 0 \<or> is_in_range r c num_rows num_cols = 1"
    by (simp add: is_in_range_def)
  show "\<exists>result. get_neighbor num_rows num_cols maze room dir mem = (result, mem)"
    by (simp add: get_neighbor_def)
  show "initialize_maze_while num_rows num_cols maze mem =
          Some (initialize_maze num_rows num_cols maze mem)"
    by (simp add: initialize_maze_while_def initialize_maze_def rows_while_returns)
qed

text \<open>
  C9. If num_rows <= 0 or num_cols <= 0, initialize_maze stores nothing: the memory
  after the call is the memory before it, at every address.
\<close>

theorem initialize_maze_nonpositive:
  assumes "sint num_rows \<le> 0 \<or> sint num_cols \<le> 0"
  shows "initialize_maze num_rows num_cols maze mem = mem"
proof
  fix a
  from assms show "initialize_maze num_rows num_cols maze mem a = mem a"
    by (intro initialize_maze_frame) auto
qed

text \<open>
  The theorem for 5 rows of 0 columns, where the outer loop runs five times over an
  empty inner loop, and for -2 rows of 4 columns, where the outer loop never runs.
\<close>

theorem initialize_maze_nonpositive_witness:
  "sint (0 :: c_int) \<le> 0 \<and> sint (- 2 :: c_int) \<le> 0 \<and>
   initialize_maze 5 0 100 (\<lambda>a. \<lparr>row = 7, col = 7, walls = [], visited = 1\<rparr>) =
     (\<lambda>a. \<lparr>row = 7, col = 7, walls = [], visited = 1\<rparr>) \<and>
   initialize_maze (- 2) 4 100 (\<lambda>a. \<lparr>row = 7, col = 7, walls = [], visited = 1\<rparr>) =
     (\<lambda>a. \<lparr>row = 7, col = 7, walls = [], visited = 1\<rparr>)"
  using initialize_maze_nonpositive [where num_rows = 5 and num_cols = 0 and maze = 100
      and mem = "\<lambda>a. \<lparr>row = 7, col = 7, walls = [], visited = 1\<rparr>"]
    initialize_maze_nonpositive [where num_rows = "- 2" and num_cols = 4 and maze = 100
      and mem = "\<lambda>a. \<lparr>row = 7, col = 7, walls = [], visited = 1\<rparr>"]
  by simp

text \<open>
  C10. initialize_maze is idempotent: for all dimensions, a second call with the same
  dimensions on the memory the first call left yields that same memory.
\<close>

theorem initialize_maze_idempotent:
  "initialize_maze num_rows num_cols maze (initialize_maze num_rows num_cols maze mem) =
   initialize_maze num_rows num_cols maze mem"
proof
  fix a
  show "initialize_maze num_rows num_cols maze (initialize_maze num_rows num_cols maze mem) a =
        initialize_maze num_rows num_cols maze mem a"
  proof (cases "\<exists>i j. 0 \<le> sint i \<and> sint i < sint num_rows \<and> 0 \<le> sint j \<and> sint j < sint num_cols \<and>
                      a = maze_at num_cols maze i j")
    case True
    then show ?thesis
      by (auto simp: initialize_maze_cell)
  next
    case False
    then show ?thesis
      by (intro initialize_maze_frame) auto
  qed
qed

end
